theory Spec2Isabelle
  imports Main
begin

section \<open>The logging package \<^verbatim>\<open>pkg/log\<close>: data model\<close>

text \<open>
  \<^verbatim>\<open>logrus.Fields\<close> is a Go map from string keys to values; \<^verbatim>\<open>Str\<close>, the only
  field option of the package, stores strings, so values are strings here.
\<close>

type_synonym Fields = "string \<rightharpoonup> string"

text \<open>
  A \<^verbatim>\<open>Logger\<close> is an interface value of the logging engine. The model keeps what the
  package can observe of it: which engine instance it writes through and the
  structured fields it carries. Loggers are live handles: the package dereferences
  every logger it resolves without a check of its own, and \<^verbatim>\<open>init\<close> installs
  \<^verbatim>\<open>logrus.StandardLogger()\<close>.
\<close>

datatype Logger = Logger (engine: nat) (data: Fields)

text \<open>
  \<^verbatim>\<open>type contextKey int; const loggerKey contextKey = iota\<close>: the key type is private
  to the package, every other key of a context is of another type.
\<close>

datatype ctx_key = loggerKey | foreignKey string

text \<open>
  A context stores values of type \<^verbatim>\<open>interface{}\<close>; the type assertion \<^verbatim>\<open>.(Logger)\<close>
  of \<^verbatim>\<open>FromContext\<close> tells loggers from everything else.
\<close>

datatype ctx_val = LoggerVal Logger | OtherVal string

text \<open>
  The standard library's immutable context chain: the empty root and a node that
  binds one key over a parent. A \<^verbatim>\<open>context.Context\<close> interface value is
  \<open>None\<close> when it is nil.
\<close>

datatype ctx = Background | WithValue ctx ctx_key ctx_val

type_synonym Context = "ctx option"

fun Value :: "ctx \<Rightarrow> ctx_key \<Rightarrow> ctx_val option" where
  "Value Background k = None"
| "Value (WithValue parent k' v) k = (if k' = k then Some v else Value parent k)"

datatype panic = Panic string

text \<open>\<^verbatim>\<open>context.WithValue\<close> panics on a nil parent.\<close>

definition context_WithValue :: "Context \<Rightarrow> ctx_key \<Rightarrow> ctx_val \<Rightarrow> panic + Context" where
  "context_WithValue parent k v =
     (case parent of
        None \<Rightarrow> Inl (Panic ''cannot create context from nil parent'')
      | Some c \<Rightarrow> Inr (Some (WithValue c k v)))"

section \<open>The engine, the operating system and the package state\<close>

text \<open>
  Modelled from the spec: \<^verbatim>\<open>WithFields\<close> of the logging engine, which is a dependency
  and not part of the package. The spec (4.1, Derive) gives its contract: the new
  handle writes through the same engine and carries the base's fields merged with the
  given ones, the given ones winning on a key collision; the base is not changed.
\<close>

definition WithFields :: "Logger \<Rightarrow> Fields \<Rightarrow> Logger" where
  "WithFields base fields = Logger (engine base) (data base ++ fields)"

datatype error =
    PathError string string
  | ErrClosed
  | UploadError
  | Errorf string error

text \<open>\<^verbatim>\<open>os.Open\<close> opens for reading; \<^verbatim>\<open>OpenFile\<close> of the package asks for
  \<^verbatim>\<open>O_RDWR|O_CREATE|O_APPEND\<close>.\<close>

datatype open_mode = ReadOnly | AppendCreate

text \<open>An \<^verbatim>\<open>io.Writer\<close>: standard output, an open file, or \<^verbatim>\<open>io.MultiWriter\<close> of two.\<close>

datatype writer = Stdout | File nat | MultiWriter writer writer

text \<open>What the package does to the outside: system calls, console and log lines,
  upload requests, in the order they happen.\<close>

datatype event =
    EvOpen string open_mode "nat option"
  | EvClose nat
  | EvDebug Logger string
  | EvPrintln string
  | EvPrintlnErr error
  | EvUpload string string nat

text \<open>
  The upload goroutine of \<^verbatim>\<open>UploadLogs\<close> with what its closure captures: the bucket
  and the key, the ticker, and the files whose \<^verbatim>\<open>Close\<close> it has deferred to its own
  return. The \<^verbatim>\<open>quit\<close> channel is a local variable of \<^verbatim>\<open>UploadLogs\<close> that only this
  closure holds.
\<close>

record task =
  bucket :: string
  s3path :: string
  ticker_running :: bool
  running :: bool
  deferred :: "nat list"

text \<open>
  The package variables (\<open>mainLogger\<close>, \<open>logFilePath\<close>, \<open>logFile\<close>), the engine's
  global output, and the process environment. A \<^verbatim>\<open>*os.File\<close> is an index into
  \<open>files\<close>, the table of every file object the process has opened, with its path and
  whether it is still open; \<open>None\<close> is the nil pointer. What the operating system
  answers is a parameter: which opens fail, the environment variables, the result of
  the hostname lookup, whether the storage session can be built, whether uploads fail.
\<close>

record state =
  mainLogger :: Logger
  logFilePath :: string
  logFile :: "nat option"
  logrusOut :: writer
  files :: "(string \<times> bool) list"
  tasks :: "task list"
  trace :: "event list"
  open_fails :: "open_mode \<Rightarrow> string \<Rightarrow> bool"
  environ :: "string \<rightharpoonup> string"
  hostname_result :: "string \<times> error option"
  session_fails :: bool
  upload_fails :: bool

definition os_OpenFile :: "state \<Rightarrow> string \<Rightarrow> open_mode \<Rightarrow> (error + nat) \<times> state" where
  "os_OpenFile s name mode =
     (if open_fails s mode name
      then (Inl (PathError ''open'' name),
            s\<lparr>trace := trace s @ [EvOpen name mode None]\<rparr>)
      else (let f = length (files s)
            in (Inr f, s\<lparr>files := files s @ [(name, True)],
                          trace := trace s @ [EvOpen name mode (Some f)]\<rparr>)))"

definition is_open :: "state \<Rightarrow> nat \<Rightarrow> bool" where
  "is_open s f = (f < length (files s) \<and> snd (files s ! f))"

text \<open>\<^verbatim>\<open>(*os.File).Close\<close>: closing a file that is already closed is an error and
  no system call.\<close>

definition file_Close :: "state \<Rightarrow> nat \<Rightarrow> error option \<times> state" where
  "file_Close s f =
     (if is_open s f
      then (None, s\<lparr>files := (files s)[f := (fst (files s ! f), False)],
                    trace := trace s @ [EvClose f]\<rparr>)
      else (Some ErrClosed, s))"

definition os_LookupEnv :: "state \<Rightarrow> string \<Rightarrow> string \<times> bool" where
  "os_LookupEnv s name = (case environ s name of None \<Rightarrow> ([], False) | Some v \<Rightarrow> (v, True))"

definition fmt_Println :: "state \<Rightarrow> string \<Rightarrow> state" where
  "fmt_Println s msg = s\<lparr>trace := trace s @ [EvPrintln msg]\<rparr>"

definition fmt_PrintlnErr :: "state \<Rightarrow> error \<Rightarrow> state" where
  "fmt_PrintlnErr s err = s\<lparr>trace := trace s @ [EvPrintlnErr err]\<rparr>"

definition logger_Debug :: "state \<Rightarrow> Logger \<Rightarrow> string \<Rightarrow> state" where
  "logger_Debug s logger msg = s\<lparr>trace := trace s @ [EvDebug logger msg]\<rparr>"

text \<open>The package as \<^verbatim>\<open>init\<close> leaves it, in a given environment.\<close>

definition init :: "(open_mode \<Rightarrow> string \<Rightarrow> bool) \<Rightarrow> (string \<rightharpoonup> string) \<Rightarrow>
    string \<times> error option \<Rightarrow> bool \<Rightarrow> bool \<Rightarrow> state" where
  "init fails env host sess upl =
     \<lparr>mainLogger = Logger 0 Map.empty, logFilePath = [], logFile = None,
      logrusOut = Stdout, files = [], tasks = [], trace = [],
      open_fails = fails, environ = env, hostname_result = host,
      session_fails = sess, upload_fails = upl\<rparr>"

text \<open>The two fixed messages of the package.\<close>

definition not_writing :: string where
  "not_writing = ''Traefik log is not writing to a file, ignoring rotate request''"

definition not_uploading :: string where
  "not_uploading =
     ''VOLT_ENVIRONMENT is not set or the log file path is not set. Not uploading logs''"

section \<open>Context binding\<close>

definition SetLogger :: "state \<Rightarrow> Logger \<Rightarrow> state" where
  "SetLogger s l = s\<lparr>mainLogger := l\<rparr>"

definition SetOutput :: "state \<Rightarrow> writer \<Rightarrow> state" where
  "SetOutput s out = s\<lparr>logrusOut := MultiWriter Stdout out\<rparr>"

definition Str :: "string \<Rightarrow> string \<Rightarrow> Fields \<Rightarrow> Fields" where
  "Str key val = (\<lambda>fields. fields(key \<mapsto> val))"

definition FromContext :: "state \<Rightarrow> Context \<Rightarrow> panic + Logger" where
  "FromContext s ctx =
     (case ctx of
        None \<Rightarrow> Inl (Panic ''nil context'')
      | Some c \<Rightarrow>
          Inr (case Value c loggerKey of
                 Some (LoggerVal logger) \<Rightarrow> logger
               | _ \<Rightarrow> mainLogger s))"

text \<open>The loop of \<^verbatim>\<open>With\<close> runs the options in order over one fresh map.\<close>

definition apply_opts :: "(Fields \<Rightarrow> Fields) list \<Rightarrow> Fields" where
  "apply_opts opts = foldl (\<lambda>fields opt. opt fields) Map.empty opts"

definition With :: "state \<Rightarrow> Context \<Rightarrow> (Fields \<Rightarrow> Fields) list \<Rightarrow> panic + Context" where
  "With s ctx opts =
     (case FromContext s ctx of
        Inl p \<Rightarrow> Inl p
      | Inr logger \<Rightarrow>
          (let fields = apply_opts opts;
               logger' = WithFields logger fields
           in context_WithValue ctx loggerKey (LoggerVal logger')))"

definition WithoutContext :: "state \<Rightarrow> Logger" where
  "WithoutContext s = mainLogger s"

section \<open>File output\<close>

definition OpenFile :: "state \<Rightarrow> string \<Rightarrow> error option \<times> state" where
  "OpenFile s path =
     (let s1 = s\<lparr>logFilePath := path\<rparr>
      in case os_OpenFile s1 (logFilePath s1) AppendCreate of
           (Inl err, s2) \<Rightarrow> (Some err, s2\<lparr>logFile := None\<rparr>)
         | (Inr f, s2) \<Rightarrow> (None, SetOutput (s2\<lparr>logFile := Some f\<rparr>) (File f)))"

definition CloseFile :: "state \<Rightarrow> error option \<times> state" where
  "CloseFile s =
     (let s1 = s\<lparr>logrusOut := Stdout\<rparr>
      in case logFile s1 of
           Some f \<Rightarrow> file_Close s1 f
         | None \<Rightarrow> (None, s1))"

text \<open>The deferred \<^verbatim>\<open>Close\<close> of the old file runs when \<^verbatim>\<open>RotateFile\<close> returns, after
  \<^verbatim>\<open>OpenFile\<close>; its error is dropped.\<close>

definition RotateFile :: "state \<Rightarrow> panic + (error option \<times> state)" where
  "RotateFile s =
     (case FromContext s (Some Background) of
        Inl p \<Rightarrow> Inl p
      | Inr logger \<Rightarrow>
          if logFile s = None \<and> logFilePath s = []
          then Inr (None, logger_Debug s logger not_writing)
          else (let old = logFile s;
                    (err, s1) = OpenFile s (logFilePath s);
                    s2 = (case old of Some f \<Rightarrow> snd (file_Close s1 f) | None \<Rightarrow> s1)
                in Inr (case err of
                          Some e \<Rightarrow> (Some (Errorf ''error opening log file: '' e), s2)
                        | None \<Rightarrow> (None, s2))))"

section \<open>Upload of the log file\<close>

text \<open>The goroutine as \<^verbatim>\<open>go func() { ... }()\<close> starts it: a fresh ticker that runs,
  nothing deferred yet.\<close>

definition upload_task :: "string \<Rightarrow> string \<Rightarrow> task" where
  "upload_task b k =
     \<lparr>bucket = b, s3path = k, ticker_running = True, running = True, deferred = []\<rparr>"

definition os_Hostname :: "state \<Rightarrow> string \<times> error option" where
  "os_Hostname s = hostname_result s"

text \<open>\<^verbatim>\<open>session.Must\<close> panics when the session cannot be built. The function has no
  result: the new goroutine is the only holder of \<^verbatim>\<open>ticker\<close> and \<^verbatim>\<open>quit\<close>.\<close>

definition UploadLogs :: "state \<Rightarrow> string \<Rightarrow> panic + state" where
  "UploadLogs s path =
     (let s1 = s\<lparr>logFilePath := path\<rparr>;
          (environment, ok) = os_LookupEnv s1 ''VOLT_ENVIRONMENT''
      in if \<not> ok \<or> logFilePath s1 = []
         then Inr (fmt_Println s1 not_uploading)
         else (let bucket = ''voltage-'' @ environment @ ''-system'';
                   (hostname, err) = os_Hostname s1;
                   hostname = (if err \<noteq> None then ''unknown'' else hostname);
                   s3path = ''traefik-logs/'' @ hostname @ ''/traefik.log''
               in if session_fails s1 then Inl (Panic ''session'')
                  else Inr (s1\<lparr>tasks := tasks s1 @ [upload_task bucket s3path]\<rparr>)))"

text \<open>
  The body of the goroutine's \<^verbatim>\<open>select\<close>. On a tick it opens the file named by the
  package variable \<open>logFilePath\<close> as it is then, defers the close to the goroutine's
  return, and uploads; a failure is printed and the loop continues.
\<close>

definition upload_tick :: "state \<Rightarrow> task \<Rightarrow> state \<times> task" where
  "upload_tick s t =
     (case os_OpenFile s (logFilePath s) ReadOnly of
        (Inl err, s1) \<Rightarrow> (fmt_PrintlnErr s1 err, t)
      | (Inr file, s1) \<Rightarrow>
          (let t1 = t\<lparr>deferred := file # deferred t\<rparr>;
               s2 = s1\<lparr>trace := trace s1 @ [EvUpload (bucket t) (s3path t) file]\<rparr>
           in if upload_fails s2 then (fmt_PrintlnErr s2 UploadError, t1) else (s2, t1)))"

text \<open>On \<^verbatim>\<open>quit\<close> it stops the ticker and returns, which runs the deferred closes,
  last deferred first.\<close>

definition upload_quit :: "state \<Rightarrow> task \<Rightarrow> state \<times> task" where
  "upload_quit s t =
     (foldl (\<lambda>s' f. snd (file_Close s' f)) s (deferred t),
      t\<lparr>ticker_running := False, running := False, deferred := []\<rparr>)"

datatype chan_event = TickerC | QuitC

definition goroutine_step :: "state \<Rightarrow> task \<Rightarrow> chan_event \<Rightarrow> state \<times> task" where
  "goroutine_step s t ev =
     (if \<not> running t then (s, t)
      else case ev of TickerC \<Rightarrow> upload_tick s t | QuitC \<Rightarrow> upload_quit s t)"

text \<open>A period of the tickers elapses: every live ticker fires and its goroutine
  takes the tick.\<close>

fun tick_all :: "state \<Rightarrow> task list \<Rightarrow> state \<times> task list" where
  "tick_all s [] = (s, [])"
| "tick_all s (t # ts) =
     (let (s1, t1) = (if ticker_running t then goroutine_step s t TickerC else (s, t));
          (s2, ts') = tick_all s1 ts
      in (s2, t1 # ts'))"

definition timer_tick :: "state \<Rightarrow> state" where
  "timer_tick s = (let (s', ts) = tick_all s (tasks s) in s'\<lparr>tasks := ts\<rparr>)"

text \<open>
  Everything that can happen to the package from outside: a call of one of its
  exported functions that write state, a period of the tickers, or a change of the
  environment. No exported function takes or returns a \<^verbatim>\<open>quit\<close> channel, so no action
  delivers \<open>QuitC\<close>. A panic ends the run.
\<close>

datatype action =
    CallSetLogger Logger
  | CallSetOutput writer
  | CallOpenFile string
  | CallCloseFile
  | CallRotateFile
  | CallUploadLogs string
  | TimerTick
  | Environment "open_mode \<Rightarrow> string \<Rightarrow> bool" "string \<rightharpoonup> string"
      "string \<times> error option" bool bool

fun exec :: "state \<Rightarrow> action \<Rightarrow> panic + state" where
  "exec s (CallSetLogger l) = Inr (SetLogger s l)"
| "exec s (CallSetOutput w) = Inr (SetOutput s w)"
| "exec s (CallOpenFile p) = Inr (snd (OpenFile s p))"
| "exec s CallCloseFile = Inr (snd (CloseFile s))"
| "exec s CallRotateFile = (case RotateFile s of Inl p \<Rightarrow> Inl p | Inr r \<Rightarrow> Inr (snd r))"
| "exec s (CallUploadLogs p) = UploadLogs s p"
| "exec s TimerTick = Inr (timer_tick s)"
| "exec s (Environment fails env host sess upl) =
     Inr (s\<lparr>open_fails := fails, environ := env, hostname_result := host,
            session_fails := sess, upload_fails := upl\<rparr>)"

fun run :: "state \<Rightarrow> action list \<Rightarrow> panic + state" where
  "run s [] = Inr s"
| "run s (a # as) = (case exec s a of Inl p \<Rightarrow> Inl p | Inr s' \<Rightarrow> run s' as)"

section \<open>Deriving a context, with the objects in a store\<close>

text \<open>
  The definitions above take a handle for the fields it carries. Whether \<^verbatim>\<open>With\<close>
  leaves the handles that exist alone is a question about objects, so here they live in
  a store: a logger handle is the address of a logger object, a \<^verbatim>\<open>logrus.Fields\<close>
  value the address of a map, and the package variable \<open>mainLogger\<close> holds an address.
  Context nodes are never written after they are built and stay values; the value they
  bind under \<open>loggerKey\<close> is an address.
\<close>

datatype ref_val = LoggerRef nat | OtherRef string

datatype rctx = RBackground | RWithValue rctx ctx_key ref_val

fun RValue :: "rctx \<Rightarrow> ctx_key \<Rightarrow> ref_val option" where
  "RValue RBackground k = None"
| "RValue (RWithValue parent k' v) k = (if k' = k then Some v else RValue parent k)"

definition rcontext_WithValue :: "rctx option \<Rightarrow> ctx_key \<Rightarrow> ref_val \<Rightarrow> panic + rctx option" where
  "rcontext_WithValue parent k v =
     (case parent of
        None \<Rightarrow> Inl (Panic ''cannot create context from nil parent'')
      | Some c \<Rightarrow> Inr (Some (RWithValue c k v)))"

record store =
  main_ref :: nat
  loggers :: "Logger list"
  field_maps :: "Fields list"

definition FromContext_st :: "store \<Rightarrow> rctx option \<Rightarrow> panic + nat" where
  "FromContext_st st ctx =
     (case ctx of
        None \<Rightarrow> Inl (Panic ''nil context'')
      | Some c \<Rightarrow>
          Inr (case RValue c loggerKey of
                 Some (LoggerRef logger) \<Rightarrow> logger
               | _ \<Rightarrow> main_ref st))"

text \<open>\<^verbatim>\<open>make(logrus.Fields)\<close> allocates an empty map.\<close>

definition make_Fields :: "store \<Rightarrow> nat \<times> store" where
  "make_Fields st = (length (field_maps st), st\<lparr>field_maps := field_maps st @ [Map.empty]\<rparr>)"

text \<open>\<^verbatim>\<open>opt(fields)\<close>: a field option writes into the map it is given, in place.\<close>

definition call_opt :: "nat \<Rightarrow> store \<Rightarrow> (Fields \<Rightarrow> Fields) \<Rightarrow> store" where
  "call_opt m st opt =
     st\<lparr>field_maps := (field_maps st)[m := opt (field_maps st ! m)]\<rparr>"

text \<open>
  Modelled from the spec: \<^verbatim>\<open>WithFields\<close> of the logging engine as an operation on the
  store. By the spec (3, LoggerHandle, and 4.1, Derive) a derivation produces a new
  handle and is free of side effects on the base: the new object is allocated and the
  base is read only. A method call on a handle that is no live object panics.
\<close>

definition WithFields_st :: "store \<Rightarrow> nat \<Rightarrow> nat \<Rightarrow> panic + (nat \<times> store)" where
  "WithFields_st st base m =
     (if base < length (loggers st)
      then Inr (length (loggers st),
                st\<lparr>loggers := loggers st @
                     [WithFields (loggers st ! base) (field_maps st ! m)]\<rparr>)
      else Inl (Panic ''invalid memory address or nil pointer dereference''))"

definition With_st :: "store \<Rightarrow> rctx option \<Rightarrow> (Fields \<Rightarrow> Fields) list \<Rightarrow>
    panic + (rctx option \<times> store)" where
  "With_st st ctx opts =
     (case FromContext_st st ctx of
        Inl p \<Rightarrow> Inl p
      | Inr logger \<Rightarrow>
          (let (fields, st1) = make_Fields st;
               st2 = foldl (call_opt fields) st1 opts
           in case WithFields_st st2 logger fields of
                Inl p \<Rightarrow> Inl p
              | Inr (logger', st3) \<Rightarrow>
                  (case rcontext_WithValue ctx loggerKey (LoggerRef logger') of
                     Inl p \<Rightarrow> Inl p
                   | Inr ctx' \<Rightarrow> Inr (ctx', st3))))"

text \<open>Reading the objects behind the addresses gives back a context of the first
  model; \<open>refs_live\<close> says that every logger a context binds is a live object.\<close>

fun abs_val :: "store \<Rightarrow> ref_val \<Rightarrow> ctx_val" where
  "abs_val st (LoggerRef a) = LoggerVal (loggers st ! a)"
| "abs_val st (OtherRef x) = OtherVal x"

fun abs_ctx :: "store \<Rightarrow> rctx \<Rightarrow> ctx" where
  "abs_ctx st RBackground = Background"
| "abs_ctx st (RWithValue parent k v) = WithValue (abs_ctx st parent) k (abs_val st v)"

fun refs_live :: "store \<Rightarrow> rctx \<Rightarrow> bool" where
  "refs_live st RBackground = True"
| "refs_live st (RWithValue parent k v) =
     ((case v of LoggerRef a \<Rightarrow> a < length (loggers st) | OtherRef x \<Rightarrow> True) \<and>
      refs_live st parent)"

text \<open>The upload goroutine with index \<open>i\<close> is alive and its ticker runs.\<close>

definition still_running :: "state \<Rightarrow> nat \<Rightarrow> bool" where
  "still_running s i =
     (i < length (tasks s) \<and> running (tasks s ! i) \<and> ticker_running (tasks s ! i))"

section \<open>Concrete environments and states\<close>

text \<open>A file system in which the empty path and a path in a missing directory cannot
  be opened.\<close>

definition quiet_fs :: "open_mode \<Rightarrow> string \<Rightarrow> bool" where
  "quiet_fs mode name = (name = [] \<or> name = ''/nodir/traefik.log'')"

definition env_prod :: "string \<rightharpoonup> string" where
  "env_prod = [''VOLT_ENVIRONMENT'' \<mapsto> ''prod'']"

definition log_path :: string where
  "log_path = ''/var/log/traefik.log''"

text \<open>A host named \<open>edge-1\<close> in the environment \<open>prod\<close>; the same with a failing
  hostname lookup; a host with no environment variable at all.\<close>

definition s_prod :: state where
  "s_prod = init quiet_fs env_prod (''edge-1'', None) False False"

definition s_lost :: state where
  "s_lost = init quiet_fs env_prod ([], Some (PathError ''hostname'' [])) False False"

definition s_bare :: state where
  "s_bare = init quiet_fs Map.empty ([], Some (PathError ''hostname'' [])) False False"

text \<open>The state after the log file was opened, and after the upload was started.\<close>

definition s_open :: state where
  "s_open = snd (OpenFile s_prod log_path)"

definition s_uploading :: state where
  "s_uploading = s_prod\<lparr>logFilePath := log_path,
     tasks := [upload_task ''voltage-prod-system'' ''traefik-logs/edge-1/traefik.log'']\<rparr>"

text \<open>A request context that carries a value of another package and no logger.\<close>

definition ctx_request :: ctx where
  "ctx_request = WithValue Background (foreignKey ''request'') (OtherVal ''42'')"

text \<open>A store with the default logger at address 0 and a logger that carries a
  request id at address 1, and a context that binds the latter.\<close>

definition st_request :: store where
  "st_request =
     \<lparr>main_ref = 0,
      loggers = [Logger 0 Map.empty, Logger 0 [''request'' \<mapsto> ''42'']],
      field_maps = []\<rparr>"

definition rctx_request :: rctx where
  "rctx_request = RWithValue RBackground loggerKey (LoggerRef 1)"

section \<open>Supporting lemmas\<close>

subsection \<open>The upload goroutines are never removed or stopped by a call\<close>

lemma OpenFile_tasks: "tasks (snd (OpenFile s p)) = tasks s"
  by (simp add: OpenFile_def os_OpenFile_def SetOutput_def Let_def)

lemma file_Close_tasks: "tasks (snd (file_Close s f)) = tasks s"
  by (simp add: file_Close_def)

lemma CloseFile_tasks: "tasks (snd (CloseFile s)) = tasks s"
  by (simp add: CloseFile_def file_Close_def Let_def split: option.splits)

lemma RotateFile_tasks: "RotateFile s = Inr r \<Longrightarrow> tasks (snd r) = tasks s"
  by (auto simp: RotateFile_def FromContext_def logger_Debug_def Let_def OpenFile_tasks
        file_Close_tasks split_beta split: if_splits option.splits)

lemma UploadLogs_tasks:
  "UploadLogs s p = Inr s' \<Longrightarrow> tasks s' = tasks s \<or> (\<exists>t. tasks s' = tasks s @ [t])"
  by (auto simp: UploadLogs_def fmt_Println_def Let_def split: if_splits prod.splits)

lemma upload_tick_flags:
  "running (snd (upload_tick s t)) = running t \<and>
   ticker_running (snd (upload_tick s t)) = ticker_running t"
  by (simp add: upload_tick_def Let_def split: prod.splits sum.splits)

lemma tick_all_flags:
  "map running (snd (tick_all s ts)) = map running ts \<and>
   map ticker_running (snd (tick_all s ts)) = map ticker_running ts"
proof (induction ts arbitrary: s)
  case Nil
  show ?case by simp
next
  case (Cons t ts)
  show ?case
    using Cons.IH upload_tick_flags [of s t]
    by (simp add: goroutine_step_def Let_def split_beta)
qed

lemma timer_tick_keeps:
  assumes "still_running s i"
  shows "still_running (timer_tick s) i"
proof -
  have m: "map running (snd (tick_all s (tasks s))) = map running (tasks s)"
    and n: "map ticker_running (snd (tick_all s (tasks s))) = map ticker_running (tasks s)"
    using tick_all_flags [of s "tasks s"] by simp_all
  have len: "length (snd (tick_all s (tasks s))) = length (tasks s)"
    using m by (metis length_map)
  have i: "i < length (tasks s)"
    using assms by (simp add: still_running_def)
  have "running (snd (tick_all s (tasks s)) ! i) = running (tasks s ! i)"
    using m i len by (metis nth_map)
  moreover have "ticker_running (snd (tick_all s (tasks s)) ! i) = ticker_running (tasks s ! i)"
    using n i len by (metis nth_map)
  ultimately show ?thesis
    using assms len by (simp add: still_running_def timer_tick_def split_beta)
qed

lemma exec_keeps:
  assumes e: "exec s a = Inr s'" and r: "still_running s i"
  shows "still_running s' i"
proof (cases a)
  case (CallUploadLogs p)
  with e have "UploadLogs s p = Inr s'" by simp
  from UploadLogs_tasks [OF this] r show ?thesis
    by (auto simp: still_running_def nth_append)
next
  case CallRotateFile
  with e obtain x where "RotateFile s = Inr x" and "s' = snd x"
    by (auto split: sum.splits)
  with RotateFile_tasks [of s x] r show ?thesis
    by (simp add: still_running_def)
next
  case TimerTick
  with e r show ?thesis
    using timer_tick_keeps by auto
qed (use e r in \<open>auto simp: still_running_def SetLogger_def SetOutput_def OpenFile_tasks
      CloseFile_tasks\<close>)

lemma run_keeps: "run s acts = Inr s' \<Longrightarrow> still_running s i \<Longrightarrow> still_running s' i"
proof (induction acts arbitrary: s)
  case Nil
  then show ?case by simp
next
  case (Cons a acts)
  then show ?case
    by (auto split: sum.splits dest: exec_keeps)
qed

text \<open>The goroutine does stop when it receives on \<^verbatim>\<open>quit\<close>: the branch is there, only
  nothing can send.\<close>

lemma goroutine_quit_stops:
  "running t \<Longrightarrow>
   \<not> running (snd (goroutine_step s t QuitC)) \<and>
   \<not> ticker_running (snd (goroutine_step s t QuitC))"
  by (simp add: goroutine_step_def upload_quit_def)

subsection \<open>Ticks without a goroutine\<close>

lemma timer_tick_idle: "tasks s = [] \<Longrightarrow> timer_tick s = s"
  by (simp add: timer_tick_def)

lemma run_ticks_idle: "tasks s = [] \<Longrightarrow> run s (replicate n TimerTick) = Inr s"
  by (induction n) (simp_all add: timer_tick_idle)

subsection \<open>Field options\<close>

lemma foldl_Str_other:
  "k \<notin> fst ` set kvs \<Longrightarrow>
   foldl (\<lambda>fields opt. opt fields) m (map (\<lambda>(a, b). Str a b) kvs) k = m k"
  by (induction kvs arbitrary: m) (auto simp: Str_def)

lemma apply_opts_last:
  "k \<notin> fst ` set later \<Longrightarrow>
   apply_opts (earlier @ [Str k v] @ map (\<lambda>(a, b). Str a b) later) k = Some v"
  by (simp add: apply_opts_def foldl_Str_other) (simp add: Str_def)

subsection \<open>The concrete states, evaluated\<close>

lemma s_open_eval:
  "logFile s_open = Some 0" "logFilePath s_open = log_path"
  "files s_open = [(log_path, True)]" "open_fails s_open = quiet_fs"
  by (simp_all add: s_open_def OpenFile_def os_OpenFile_def SetOutput_def s_prod_def init_def
        quiet_fs_def log_path_def Let_def)

lemma UploadLogs_s_prod: "UploadLogs s_prod log_path = Inr s_uploading"
  by (simp add: UploadLogs_def os_LookupEnv_def os_Hostname_def s_uploading_def
        s_prod_def init_def env_prod_def log_path_def Let_def)

lemma tasks_s_uploading: "tasks s_uploading \<noteq> tasks s_prod"
  by (simp add: s_uploading_def s_prod_def init_def)

subsection \<open>The store while a context is derived\<close>

text \<open>Running the options writes one map and nothing else.\<close>

lemma call_opts_frame:
  "loggers (foldl (call_opt m) st opts) = loggers st \<and>
   main_ref (foldl (call_opt m) st opts) = main_ref st \<and>
   length (field_maps (foldl (call_opt m) st opts)) = length (field_maps st)"
  by (induction opts arbitrary: st) (simp_all add: call_opt_def)

lemma call_opts_map:
  "m < length (field_maps st) \<Longrightarrow>
   field_maps (foldl (call_opt m) st opts) ! m =
     foldl (\<lambda>fields opt. opt fields) (field_maps st ! m) opts"
  by (induction opts arbitrary: st) (simp_all add: call_opt_def)

lemma call_opts_other_maps:
  "n \<noteq> m \<Longrightarrow> field_maps (foldl (call_opt m) st opts) ! n = field_maps st ! n"
  by (induction opts arbitrary: st) (simp_all add: call_opt_def)

lemma FromContext_st_main:
  "main_ref st' = main_ref st \<Longrightarrow> FromContext_st st' d = FromContext_st st d"
  by (auto simp: FromContext_st_def split: option.splits ref_val.splits)

lemma With_st_eval:
  assumes "FromContext_st st (Some c) = Inr a" and "a < length (loggers st)"
  shows "\<exists>st'. With_st st (Some c) opts =
             Inr (Some (RWithValue c loggerKey (LoggerRef (length (loggers st)))), st') \<and>
           main_ref st' = main_ref st \<and>
           loggers st' = loggers st @ [WithFields (loggers st ! a) (apply_opts opts)] \<and>
           take (length (field_maps st)) (field_maps st') = field_maps st"
proof -
  let ?m = "length (field_maps st)"
  let ?st1 = "st\<lparr>field_maps := field_maps st @ [Map.empty]\<rparr>"
  let ?st2 = "foldl (call_opt ?m) ?st1 opts"
  let ?st3 = "?st2\<lparr>loggers := loggers st @ [WithFields (loggers st ! a) (apply_opts opts)]\<rparr>"
  have l2: "loggers ?st2 = loggers st" and m2: "main_ref ?st2 = main_ref st"
    using call_opts_frame [of ?m ?st1 opts] by simp_all
  have f2: "field_maps ?st2 ! ?m = apply_opts opts"
    using call_opts_map [of ?m ?st1 opts] by (simp add: apply_opts_def)
  have len2: "length (field_maps ?st2) = Suc ?m"
    using call_opts_frame [of ?m ?st1 opts] by simp
  have o2: "take ?m (field_maps ?st2) = field_maps st"
  proof (rule nth_equalityI)
    show "length (take ?m (field_maps ?st2)) = length (field_maps st)"
      using len2 by simp
  next
    fix i assume "i < length (take ?m (field_maps ?st2))"
    then have i: "i < ?m" by simp
    then show "take ?m (field_maps ?st2) ! i = field_maps st ! i"
      using call_opts_other_maps [of i ?m ?st1 opts] by (simp add: nth_append)
  qed
  have w: "WithFields_st ?st2 a ?m = Inr (length (loggers st), ?st3)"
    using assms(2) l2 f2 by (simp add: WithFields_st_def)
  have call: "With_st st (Some c) opts =
      Inr (Some (RWithValue c loggerKey (LoggerRef (length (loggers st)))), ?st3)"
    using assms(1) w by (simp add: With_st_def make_Fields_def rcontext_WithValue_def)
  have m3: "main_ref ?st3 = main_ref st"
    using m2 by simp
  have l3: "loggers ?st3 = loggers st @ [WithFields (loggers st ! a) (apply_opts opts)]"
    by simp
  have tm: "take ?m (field_maps ?st3) = field_maps st"
    using o2 by simp
  show ?thesis
    using call m3 l3 tm by blast
qed

text \<open>What the value-level \<^verbatim>\<open>With\<close> returns on a context that is not nil.\<close>

lemma With_value_result:
  assumes "FromContext s (Some c) = Inr l"
  shows "With s (Some c) opts =
     Inr (Some (WithValue c loggerKey (LoggerVal (WithFields l (apply_opts opts))))) \<and>
   FromContext s (Some (WithValue c loggerKey (LoggerVal (WithFields l (apply_opts opts))))) =
     Inr (WithFields l (apply_opts opts)) \<and>
   Value (WithValue c loggerKey (LoggerVal (WithFields l (apply_opts opts)))) (foreignKey k) =
     Value c (foreignKey k)"
  using assms by (simp add: With_def FromContext_def context_WithValue_def Let_def)

text \<open>The two models of \<^verbatim>\<open>With\<close> agree: read through the store after the call, the
  context that \<open>With_st\<close> returns is the context that \<open>With\<close> returns.\<close>

lemma abs_ctx_grow:
  "refs_live st c \<Longrightarrow> take (length (loggers st)) (loggers st') = loggers st \<Longrightarrow>
   abs_ctx st' c = abs_ctx st c"
proof (induction c)
  case RBackground
  show ?case by simp
next
  case (RWithValue c k v)
  have "abs_val st' v = abs_val st v"
  proof (cases v)
    case (LoggerRef a)
    with RWithValue.prems have "a < length (loggers st)" by simp
    then have "loggers st' ! a = take (length (loggers st)) (loggers st') ! a" by simp
    with RWithValue.prems LoggerRef show ?thesis by simp
  qed simp
  with RWithValue show ?case by simp
qed

lemma Value_abs_ctx: "Value (abs_ctx st c) k = map_option (abs_val st) (RValue c k)"
  by (induction c) simp_all


lemma resolved_ref_live:
  assumes "refs_live st c" and "main_ref st < length (loggers st)"
    and "FromContext_st st (Some c) = Inr a"
  shows "a < length (loggers st)"
proof -
  have "RValue c loggerKey = Some (LoggerRef b) \<Longrightarrow> b < length (loggers st)" for b
    using assms(1) by (induction c) (auto split: if_splits)
  with assms(2,3) show ?thesis
    by (auto simp: FromContext_st_def split: option.splits ref_val.splits)
qed

lemma FromContext_abs:
  assumes "mainLogger s = loggers st ! main_ref st"
    and "FromContext_st st (Some c) = Inr a"
  shows "FromContext s (Some (abs_ctx st c)) = Inr (loggers st ! a)"
  using assms
  by (auto simp: FromContext_def FromContext_st_def Value_abs_ctx
        split: option.splits ref_val.splits)

lemma With_st_refines_With:
  assumes "refs_live st c" and "main_ref st < length (loggers st)"
    and "mainLogger s = loggers st ! main_ref st"
    and "With_st st (Some c) opts = Inr (Some c', st')"
  shows "With s (Some (abs_ctx st c)) opts = Inr (Some (abs_ctx st' c'))"
proof -
  obtain a where a: "FromContext_st st (Some c) = Inr a"
    by (simp add: FromContext_st_def)
  have live: "a < length (loggers st)"
    using assms(1,2) a by (rule resolved_ref_live)
  from With_st_eval [OF a live, of opts] assms(4)
  have c': "c' = RWithValue c loggerKey (LoggerRef (length (loggers st)))"
    and l: "loggers st' = loggers st @ [WithFields (loggers st ! a) (apply_opts opts)]"
    by auto
  have grow: "abs_ctx st' c = abs_ctx st c"
    using assms(1) by (rule abs_ctx_grow) (simp add: l)
  show ?thesis
    using FromContext_abs [OF assms(3) a] c' l grow
    by (simp add: With_def context_WithValue_def)
qed

section \<open>The upload goroutine cannot be cancelled\<close>

text \<open>
  C1. The claim asks for a cancellation signal that the starter of the upload can
  send. In the code the goroutine does listen on \<^verbatim>\<open>quit\<close>, but \<^verbatim>\<open>UploadLogs\<close>
  returns nothing and stores the channel nowhere. The theorem states what follows:
  once \<^verbatim>\<open>UploadLogs\<close> has started its goroutine, then after every sequence of calls of
  the package, ticks and changes of the environment that does not panic, that
  goroutine is still alive and its ticker still runs.
\<close>

theorem upload_task_cannot_be_stopped:
  assumes "UploadLogs s path = Inr s0" and "tasks s0 \<noteq> tasks s"
    and "run s0 acts = Inr s'"
  shows "still_running s' (length (tasks s))"
proof -
  have "still_running s0 (length (tasks s))"
    using assms(1,2)
    by (auto simp: UploadLogs_def fmt_Println_def still_running_def upload_task_def Let_def
          split: if_splits prod.splits)
  with assms(3) show ?thesis
    by (rule run_keeps)
qed

text \<open>On the host \<open>edge-1\<close>: the upload is started, then a tick, \<^verbatim>\<open>CloseFile\<close>,
  \<^verbatim>\<open>RotateFile\<close>, \<^verbatim>\<open>UploadLogs("")\<close> and another tick leave the goroutine running.\<close>

theorem upload_task_cannot_be_stopped_witness:
  "UploadLogs s_prod log_path = Inr s_uploading \<and>
   tasks s_uploading \<noteq> tasks s_prod \<and>
   (\<exists>s'. run s_uploading [TimerTick, CallCloseFile, CallRotateFile, CallUploadLogs [], TimerTick]
           = Inr s' \<and>
         still_running s' (length (tasks s_prod)))"
proof -
  have "\<exists>s'. run s_uploading [TimerTick, CallCloseFile, CallRotateFile, CallUploadLogs [], TimerTick]
           = Inr s'"
    by (simp add: timer_tick_def goroutine_step_def upload_tick_def os_OpenFile_def
          fmt_PrintlnErr_def fmt_Println_def CloseFile_def RotateFile_def FromContext_def
          OpenFile_def SetOutput_def file_Close_def is_open_def UploadLogs_def
          os_LookupEnv_def logger_Debug_def
          s_uploading_def upload_task_def s_prod_def init_def env_prod_def quiet_fs_def
          log_path_def Let_def)
  then obtain s' where
    r: "run s_uploading [TimerTick, CallCloseFile, CallRotateFile, CallUploadLogs [], TimerTick]
          = Inr s'" ..
  show ?thesis
    using UploadLogs_s_prod tasks_s_uploading r
      upload_task_cannot_be_stopped [OF UploadLogs_s_prod tasks_s_uploading r]
    by blast
qed

section \<open>Resolving the logger of a context\<close>

text \<open>
  C2. On the nil context \<^verbatim>\<open>FromContext\<close> panics, in every state of the package; in
  particular it does not return the default logger.
\<close>

theorem FromContext_nil_panics:
  "FromContext s None = Inl (Panic ''nil context'') \<and>
   FromContext s None \<noteq> Inr (WithoutContext s)"
  by (simp add: FromContext_def)

text \<open>
  C3. On a context that is not nil and binds no logger under \<open>loggerKey\<close>,
  \<^verbatim>\<open>FromContext\<close> returns the handle that \<^verbatim>\<open>WithoutContext\<close> returns.
\<close>

theorem FromContext_unbound_is_default:
  assumes "\<forall>l. Value c loggerKey \<noteq> Some (LoggerVal l)"
  shows "FromContext s (Some c) = Inr (WithoutContext s)"
  using assms
  by (auto simp: FromContext_def WithoutContext_def split: option.splits ctx_val.splits)

theorem FromContext_unbound_is_default_witness:
  "(\<forall>l. Value ctx_request loggerKey \<noteq> Some (LoggerVal l)) \<and>
   FromContext s_bare (Some ctx_request) = Inr (WithoutContext s_bare) \<and>
   WithoutContext s_bare = Logger 0 Map.empty"
proof -
  have h: "\<forall>l. Value ctx_request loggerKey \<noteq> Some (LoggerVal l)"
    by (simp add: ctx_request_def)
  show ?thesis
    using h FromContext_unbound_is_default [OF h, of s_bare]
    by (simp add: WithoutContext_def s_bare_def init_def)
qed

section \<open>Starting the upload\<close>

text \<open>
  C4. When \<^verbatim>\<open>VOLT_ENVIRONMENT\<close> is not set, or the path is empty, \<^verbatim>\<open>UploadLogs\<close>
  returns normally; all it has done is store the path and print the diagnostic. No
  goroutine is started, and where none ran before, any number of later ticks changes
  nothing: no file is opened and no upload is attempted.
\<close>

theorem UploadLogs_without_environment_is_noop:
  assumes "environ s ''VOLT_ENVIRONMENT'' = None \<or> path = []"
  shows "UploadLogs s path = Inr (fmt_Println (s\<lparr>logFilePath := path\<rparr>) not_uploading) \<and>
         tasks (fmt_Println (s\<lparr>logFilePath := path\<rparr>) not_uploading) = tasks s \<and>
         trace (fmt_Println (s\<lparr>logFilePath := path\<rparr>) not_uploading) =
           trace s @ [EvPrintln not_uploading] \<and>
         (tasks s = [] \<longrightarrow>
            run (fmt_Println (s\<lparr>logFilePath := path\<rparr>) not_uploading) (replicate n TimerTick) =
              Inr (fmt_Println (s\<lparr>logFilePath := path\<rparr>) not_uploading))"
proof -
  have u: "UploadLogs s path = Inr (fmt_Println (s\<lparr>logFilePath := path\<rparr>) not_uploading)"
    using assms
    by (auto simp: UploadLogs_def os_LookupEnv_def Let_def split: option.splits)
  have t: "tasks (fmt_Println (s\<lparr>logFilePath := path\<rparr>) not_uploading) = tasks s"
    by (simp add: fmt_Println_def)
  have r: "trace (fmt_Println (s\<lparr>logFilePath := path\<rparr>) not_uploading) =
      trace s @ [EvPrintln not_uploading]"
    by (simp add: fmt_Println_def)
  show ?thesis
    using u t r run_ticks_idle [of "fmt_Println (s\<lparr>logFilePath := path\<rparr>) not_uploading" n]
    by simp
qed

theorem UploadLogs_without_environment_is_noop_witness:
  "(environ s_bare ''VOLT_ENVIRONMENT'' = None \<or> log_path = []) \<and>
   UploadLogs s_bare log_path =
     Inr (fmt_Println (s_bare\<lparr>logFilePath := log_path\<rparr>) not_uploading) \<and>
   tasks (fmt_Println (s_bare\<lparr>logFilePath := log_path\<rparr>) not_uploading) = [] \<and>
   tasks s_bare = [] \<and>
   run (fmt_Println (s_bare\<lparr>logFilePath := log_path\<rparr>) not_uploading) (replicate 3 TimerTick) =
     Inr (fmt_Println (s_bare\<lparr>logFilePath := log_path\<rparr>) not_uploading)"
proof -
  have h: "environ s_bare ''VOLT_ENVIRONMENT'' = None \<or> log_path = []"
    by (simp add: s_bare_def init_def)
  have t: "tasks s_bare = []"
    by (simp add: s_bare_def init_def)
  show ?thesis
    using h t UploadLogs_without_environment_is_noop [OF h, of 3] by simp
qed

text \<open>
  C7. Whenever \<^verbatim>\<open>UploadLogs\<close> starts a goroutine, the environment variable is set to
  some \<open>env\<close>, and the goroutine uploads to the bucket \<open>voltage-env-system\<close> under the
  key \<open>traefik-logs/hostname/traefik.log\<close>, where the hostname is what the lookup
  returns, or \<open>unknown\<close> when the lookup fails. Neither the path given nor any
  package variable enters the key.
\<close>

theorem UploadLogs_destination:
  assumes "UploadLogs s path = Inr s'" and "tasks s' \<noteq> tasks s"
  shows "\<exists>env t. environ s ''VOLT_ENVIRONMENT'' = Some env \<and>
           tasks s' = tasks s @ [t] \<and>
           running t \<and> ticker_running t \<and>
           bucket t = ''voltage-'' @ env @ ''-system'' \<and>
           s3path t = ''traefik-logs/'' @
             (if snd (hostname_result s) = None then fst (hostname_result s) else ''unknown'') @
             ''/traefik.log''"
  using assms
  by (auto simp: UploadLogs_def os_LookupEnv_def os_Hostname_def fmt_Println_def
        upload_task_def Let_def split_beta split: option.splits if_splits)

theorem UploadLogs_destination_witness:
  "UploadLogs s_prod log_path = Inr s_uploading \<and>
   tasks s_uploading \<noteq> tasks s_prod \<and>
   environ s_prod ''VOLT_ENVIRONMENT'' = Some ''prod'' \<and>
   tasks s_uploading =
     tasks s_prod @ [upload_task ''voltage-prod-system'' ''traefik-logs/edge-1/traefik.log''] \<and>
   (\<exists>t. tasks (projr (UploadLogs s_lost log_path)) = [t] \<and>
      s3path t = ''traefik-logs/unknown/traefik.log'')"
proof -
  have e: "environ s_prod ''VOLT_ENVIRONMENT'' = Some ''prod''"
    by (simp add: s_prod_def init_def env_prod_def)
  have t: "tasks s_uploading =
     tasks s_prod @ [upload_task ''voltage-prod-system'' ''traefik-logs/edge-1/traefik.log'']"
    by (simp add: s_uploading_def s_prod_def init_def)
  have l: "\<exists>t. tasks (projr (UploadLogs s_lost log_path)) = [t] \<and>
      s3path t = ''traefik-logs/unknown/traefik.log''"
    by (simp add: UploadLogs_def os_LookupEnv_def os_Hostname_def upload_task_def
          s_lost_def init_def env_prod_def log_path_def Let_def)
  show ?thesis
    using UploadLogs_s_prod tasks_s_uploading e t l
      UploadLogs_destination [OF UploadLogs_s_prod tasks_s_uploading]
    by simp
qed

section \<open>Opening and rotating the log file\<close>

text \<open>
  C5. When the file at \<open>p\<close> cannot be opened, \<^verbatim>\<open>OpenFile(p)\<close> returns the error of
  the open. The package's path is \<open>p\<close> all the same, the package's handle is nil, and
  the call has opened no file; the engine's output is what it was.
\<close>

theorem OpenFile_failure_keeps_path:
  assumes "open_fails s AppendCreate p"
  shows "fst (OpenFile s p) = Some (PathError ''open'' p) \<and>
         logFilePath (snd (OpenFile s p)) = p \<and>
         logFile (snd (OpenFile s p)) = None \<and>
         files (snd (OpenFile s p)) = files s \<and>
         logrusOut (snd (OpenFile s p)) = logrusOut s \<and>
         trace (snd (OpenFile s p)) = trace s @ [EvOpen p AppendCreate None]"
  using assms by (simp add: OpenFile_def os_OpenFile_def Let_def)

theorem OpenFile_failure_keeps_path_witness:
  "open_fails s_open AppendCreate ''/nodir/traefik.log'' \<and>
   logFilePath s_open = log_path \<and>
   fst (OpenFile s_open ''/nodir/traefik.log'') =
     Some (PathError ''open'' ''/nodir/traefik.log'') \<and>
   logFilePath (snd (OpenFile s_open ''/nodir/traefik.log'')) = ''/nodir/traefik.log'' \<and>
   logFile (snd (OpenFile s_open ''/nodir/traefik.log'')) = None"
proof -
  have h: "open_fails s_open AppendCreate ''/nodir/traefik.log''"
    by (simp add: s_open_eval quiet_fs_def)
  show ?thesis
    using h s_open_eval(2) OpenFile_failure_keeps_path [OF h] by simp
qed

text \<open>
  C6. With no handle and no path in the package, \<^verbatim>\<open>RotateFile\<close> returns no error and
  changes nothing but the log: its one effect is the call of \<^verbatim>\<open>Debug\<close> on the default
  logger. It makes no system call, and the handle stays nil.
\<close>

theorem RotateFile_without_file_is_noop:
  assumes "logFile s = None" and "logFilePath s = []"
  shows "RotateFile s =
           Inr (None, s\<lparr>trace := trace s @ [EvDebug (mainLogger s) not_writing]\<rparr>)"
  using assms
  by (simp add: RotateFile_def FromContext_def logger_Debug_def)

theorem RotateFile_without_file_is_noop_witness:
  "logFile s_bare = None \<and> logFilePath s_bare = [] \<and>
   RotateFile s_bare =
     Inr (None, s_bare\<lparr>trace := [EvDebug (Logger 0 Map.empty) not_writing]\<rparr>)"
proof -
  have a: "logFile s_bare = None" and b: "logFilePath s_bare = []"
    by (simp_all add: s_bare_def init_def)
  have c: "trace s_bare = []" and d: "mainLogger s_bare = Logger 0 Map.empty"
    by (simp_all add: s_bare_def init_def)
  show ?thesis
    using a b RotateFile_without_file_is_noop [OF a b] by (simp add: c d)
qed

text \<open>
  C10. When the package holds an open handle \<open>h\<close>, \<^verbatim>\<open>OpenFile(p)\<close> makes one system
  call, the open: \<open>h\<close> is still open afterwards, and the package's handle is the new
  file, or nil when the open failed, and in both cases no longer \<open>h\<close>.
  \<^verbatim>\<open>RotateFile\<close> in the same state reopens the path and then closes \<open>h\<close>.
\<close>

theorem OpenFile_never_closes_previous:
  assumes "logFile s = Some h" and "is_open s h"
  shows "is_open (snd (OpenFile s p)) h \<and>
         logFile (snd (OpenFile s p)) \<noteq> Some h \<and>
         logFile (snd (OpenFile s p)) =
           (if open_fails s AppendCreate p then None else Some (length (files s))) \<and>
         trace (snd (OpenFile s p)) =
           trace s @ [EvOpen p AppendCreate (logFile (snd (OpenFile s p)))] \<and>
         (\<exists>r. RotateFile s = Inr r \<and> \<not> is_open (snd r) h \<and>
              trace (snd r) = trace s @
                [EvOpen (logFilePath s) AppendCreate (logFile (snd r)), EvClose h])"
proof -
  have lt: "h < length (files s)" and op: "snd (files s ! h)"
    using assms(2) by (simp_all add: is_open_def)
  have a: "is_open (snd (OpenFile s p)) h"
    using lt op
    by (simp add: OpenFile_def os_OpenFile_def SetOutput_def is_open_def Let_def nth_append)
  have b: "logFile (snd (OpenFile s p)) =
           (if open_fails s AppendCreate p then None else Some (length (files s)))"
    by (simp add: OpenFile_def os_OpenFile_def SetOutput_def Let_def)
  have c: "logFile (snd (OpenFile s p)) \<noteq> Some h"
    using lt b by simp
  have d: "trace (snd (OpenFile s p)) =
           trace s @ [EvOpen p AppendCreate (logFile (snd (OpenFile s p)))]"
    by (simp add: OpenFile_def os_OpenFile_def SetOutput_def Let_def)
  have e: "\<exists>r. RotateFile s = Inr r \<and> \<not> is_open (snd r) h \<and>
              trace (snd r) = trace s @
                [EvOpen (logFilePath s) AppendCreate (logFile (snd r)), EvClose h]"
    using assms(1) lt op
    by (simp add: RotateFile_def FromContext_def OpenFile_def os_OpenFile_def SetOutput_def
          file_Close_def is_open_def Let_def nth_append)
  show ?thesis
    using a b c d e by simp
qed

theorem OpenFile_never_closes_previous_witness:
  "logFile s_open = Some 0 \<and> is_open s_open 0 \<and>
   is_open (snd (OpenFile s_open ''/var/log/other.log'')) 0 \<and>
   logFile (snd (OpenFile s_open ''/var/log/other.log'')) = Some 1 \<and>
   (\<exists>r. RotateFile s_open = Inr r \<and> \<not> is_open (snd r) 0)"
proof -
  have b: "is_open s_open 0"
    by (simp add: is_open_def s_open_eval)
  have c: "\<not> quiet_fs AppendCreate ''/var/log/other.log''"
    by (simp add: quiet_fs_def)
  show ?thesis
    using s_open_eval(1) b
      OpenFile_never_closes_previous [OF s_open_eval(1) b, of "''/var/log/other.log''"]
    by (auto simp: c s_open_eval)
qed

section \<open>Deriving a context\<close>

text \<open>
  C8, as amended. Take a context that is not nil and resolves to the live handle \<open>a\<close>.
  \<^verbatim>\<open>With\<close> returns a new node over that context which binds, under \<open>loggerKey\<close>, a
  newly allocated handle; the new context resolves to it, and its object carries the
  fields of \<open>a\<close>'s object merged with those the options build. The original context
  resolves to \<open>a\<close> in the store after the call as it did before, and the object at
  \<open>a\<close> is what it was. So does every other context \<open>d\<close>, a parent or a sibling: the
  call writes neither \<open>mainLogger\<close> nor any logger object or map that existed.
\<close>

theorem With_binds_and_leaves_original:
  assumes "FromContext_st st (Some c) = Inr a" and "a < length (loggers st)"
  shows "\<exists>st'. With_st st (Some c) opts =
             Inr (Some (RWithValue c loggerKey (LoggerRef (length (loggers st)))), st') \<and>
           FromContext_st st' (Some (RWithValue c loggerKey (LoggerRef (length (loggers st))))) =
             Inr (length (loggers st)) \<and>
           loggers st' ! length (loggers st) = WithFields (loggers st ! a) (apply_opts opts) \<and>
           FromContext_st st' (Some c) = Inr a \<and>
           loggers st' ! a = loggers st ! a \<and>
           FromContext_st st' d = FromContext_st st d \<and>
           take (length (loggers st)) (loggers st') = loggers st \<and>
           take (length (field_maps st)) (field_maps st') = field_maps st"
proof -
  from With_st_eval [OF assms, of opts] obtain st' where
    call: "With_st st (Some c) opts =
       Inr (Some (RWithValue c loggerKey (LoggerRef (length (loggers st)))), st')"
    and m: "main_ref st' = main_ref st"
    and l: "loggers st' = loggers st @ [WithFields (loggers st ! a) (apply_opts opts)]"
    and f: "take (length (field_maps st)) (field_maps st') = field_maps st"
    by blast
  have new: "FromContext_st st' (Some (RWithValue c loggerKey (LoggerRef (length (loggers st)))))
      = Inr (length (loggers st))"
    by (simp add: FromContext_st_def)
  have obj: "loggers st' ! length (loggers st) = WithFields (loggers st ! a) (apply_opts opts)"
    using l by simp
  have old: "FromContext_st st' (Some c) = Inr a"
    using assms(1) FromContext_st_main [OF m, of "Some c"] by simp
  have same: "loggers st' ! a = loggers st ! a"
    using assms(2) l by (simp add: nth_append)
  have others: "FromContext_st st' d = FromContext_st st d"
    using m by (rule FromContext_st_main)
  have tl: "take (length (loggers st)) (loggers st') = loggers st"
    using l by simp
  show ?thesis
    using call new obj old same others tl f by blast
qed

text \<open>The context binds the logger at address 1; the derived logger is allocated at
  address 2, and the context and the root still resolve to 1 and to 0.\<close>

theorem With_binds_and_leaves_original_witness:
  "FromContext_st st_request (Some rctx_request) = Inr 1 \<and>
   1 < length (loggers st_request) \<and>
   (\<exists>st'. With_st st_request (Some rctx_request) [Str ''route'' ''api''] =
            Inr (Some (RWithValue rctx_request loggerKey (LoggerRef 2)), st') \<and>
          FromContext_st st' (Some (RWithValue rctx_request loggerKey (LoggerRef 2))) = Inr 2 \<and>
          loggers st' ! 2 = Logger 0 [''request'' \<mapsto> ''42'', ''route'' \<mapsto> ''api''] \<and>
          FromContext_st st' (Some rctx_request) = Inr 1 \<and>
          loggers st' ! 1 = Logger 0 [''request'' \<mapsto> ''42''] \<and>
          FromContext_st st' (Some RBackground) = Inr 0)"
proof -
  have h: "FromContext_st st_request (Some rctx_request) = Inr 1"
    by (simp add: FromContext_st_def rctx_request_def)
  have v: "1 < length (loggers st_request)"
    by (simp add: st_request_def)
  have n: "length (loggers st_request) = 2"
    by (simp add: st_request_def)
  have o: "loggers st_request ! 1 = Logger 0 [''request'' \<mapsto> ''42'']"
    by (simp add: st_request_def)
  have f: "WithFields (Logger 0 [''request'' \<mapsto> ''42'']) (apply_opts [Str ''route'' ''api'']) =
      Logger 0 [''request'' \<mapsto> ''42'', ''route'' \<mapsto> ''api'']"
    by (simp add: WithFields_def apply_opts_def Str_def)
  have b: "FromContext_st st_request (Some RBackground) = Inr 0"
    by (simp add: FromContext_st_def st_request_def)
  note w = With_binds_and_leaves_original [OF h v, of "[Str ''route'' ''api'']" "Some RBackground",
      unfolded n o f b]
  show ?thesis
    using h v w by blast
qed

text \<open>The claim as stated is for every context. On the nil context \<^verbatim>\<open>With\<close> returns
  no context: it panics in \<^verbatim>\<open>FromContext\<close>, in either model.\<close>

theorem With_nil_context_panics:
  "With s_bare None [] = Inl (Panic ''nil context'') \<and>
   With_st st_request None [] = Inl (Panic ''nil context'')"
  by (simp add: With_def FromContext_def With_st_def FromContext_st_def)

text \<open>
  C9, as amended. For a context that is not nil, \<^verbatim>\<open>With(ctx, Str(k, v1), Str(k, v2))\<close>
  binds a logger whose fields map \<open>k\<close> to \<open>v2\<close>. In general, after any options, an
  option \<^verbatim>\<open>Str(k, v)\<close> followed only by \<^verbatim>\<open>Str\<close> options of other keys leaves \<open>k\<close>
  mapped to \<open>v\<close> in the bound logger.
\<close>

theorem With_last_write_wins:
  "(\<exists>l. With s (Some c) [Str k v1, Str k v2] =
          Inr (Some (WithValue c loggerKey (LoggerVal l))) \<and>
        FromContext s (Some (WithValue c loggerKey (LoggerVal l))) = Inr l \<and>
        data l k = Some v2) \<and>
   (k \<notin> fst ` set later \<longrightarrow>
     (\<exists>l. With s (Some c) (earlier @ [Str k v] @ map (\<lambda>(a, b). Str a b) later) =
          Inr (Some (WithValue c loggerKey (LoggerVal l))) \<and>
        FromContext s (Some (WithValue c loggerKey (LoggerVal l))) = Inr l \<and>
        data l k = Some v))"
proof -
  have bound: "\<exists>l. With s (Some c) opts = Inr (Some (WithValue c loggerKey (LoggerVal l))) \<and>
      FromContext s (Some (WithValue c loggerKey (LoggerVal l))) = Inr l \<and>
      data l k = Some w" if "apply_opts opts k = Some w" for opts w
    using that
    by (simp add: With_def FromContext_def context_WithValue_def WithFields_def Let_def)
  have two: "apply_opts [Str k v1, Str k v2] k = Some v2"
    by (simp add: apply_opts_def Str_def)
  show ?thesis
    using bound [OF two] bound [OF apply_opts_last [of k later earlier v]] by blast
qed

theorem With_last_write_wins_witness:
  "''route'' \<notin> fst ` set [(''host'', ''a.example'')] \<and>
   With s_bare (Some ctx_request)
       ([Str ''route'' ''old''] @ [Str ''route'' ''api''] @
        map (\<lambda>(a, b). Str a b) [(''host'', ''a.example'')]) =
     Inr (Some (WithValue ctx_request loggerKey
       (LoggerVal (Logger 0 [''route'' \<mapsto> ''api'', ''host'' \<mapsto> ''a.example''])))) \<and>
   (\<exists>l. With s_bare (Some ctx_request)
       ([Str ''route'' ''old''] @ [Str ''route'' ''api''] @
        map (\<lambda>(a, b). Str a b) [(''host'', ''a.example'')]) =
          Inr (Some (WithValue ctx_request loggerKey (LoggerVal l))) \<and>
        FromContext s_bare (Some (WithValue ctx_request loggerKey (LoggerVal l))) = Inr l \<and>
        data l ''route'' = Some ''api'')"
proof -
  have h: "''route'' \<notin> fst ` set [(''host'', ''a.example'')]"
    by simp
  have e: "With s_bare (Some ctx_request)
       ([Str ''route'' ''old''] @ [Str ''route'' ''api''] @
        map (\<lambda>(a, b). Str a b) [(''host'', ''a.example'')]) =
     Inr (Some (WithValue ctx_request loggerKey
       (LoggerVal (Logger 0 [''route'' \<mapsto> ''api'', ''host'' \<mapsto> ''a.example'']))))"
    by (simp add: With_def FromContext_def context_WithValue_def WithFields_def Let_def
          apply_opts_def Str_def ctx_request_def s_bare_def init_def)
  show ?thesis
    using h e With_last_write_wins [of s_bare ctx_request "''route''" "''old''" "''api''"
        "[(''host'', ''a.example'')]" "[Str ''route'' ''old'']" "''api''"]
    by blast
qed

text \<open>On the nil context the two options are never run and nothing is bound.\<close>

theorem With_two_options_nil_context_panics:
  "With s_bare None [Str ''route'' ''old'', Str ''route'' ''api''] =
     Inl (Panic ''nil context'')"
  by (simp add: With_def FromContext_def)

end
